theory Spec2Isabelle
  imports Main "HOL-Library.Sublist"
begin

section \<open>Text\<close>

text \<open>
  A Python \<^verbatim>\<open>str\<close> is a sequence of Unicode code points, and \<^verbatim>\<open>len\<close>, indexing,
  slicing and \<^verbatim>\<open>find\<close> all count code points. A code point is modelled as a natural
  number and a string as a list of them. \<open>lit\<close> turns an ASCII literal into such a
  string; the backslash is written by its code, \<open>0x5C\<close>.
\<close>

type_synonym str = "nat list"

definition lit :: "string \<Rightarrow> str" where
  "lit s = map of_char s"

text \<open>\<^verbatim>\<open>sub in s\<close>: \<open>sub\<close> occurs in \<open>s\<close> as a contiguous run.\<close>

fun str_in :: "str \<Rightarrow> str \<Rightarrow> bool" where
  "str_in sub [] = (sub = [])"
| "str_in sub (c # cs) = (prefix sub (c # cs) \<or> str_in sub cs)"

text \<open>\<^verbatim>\<open>s.find(sub)\<close>: the lowest index where \<open>sub\<close> starts in \<open>s\<close>, or \<open>-1\<close>.\<close>

fun str_find :: "str \<Rightarrow> str \<Rightarrow> int" where
  "str_find [] sub = (if sub = [] then 0 else - 1)"
| "str_find (c # cs) sub =
     (if prefix sub (c # cs) then 0
      else (let i = str_find cs sub in if i = - 1 then - 1 else i + 1))"

text \<open>
  \<^verbatim>\<open>c.isspace()\<close>, the characters that \<^verbatim>\<open>s.strip()\<close> removes from both ends:
  the ASCII controls TAB to CR and FS to US, the space, and the Unicode white space
  U+0085, U+00A0, U+1680, U+2000 to U+200A, U+2028, U+2029, U+202F, U+205F, U+3000.
\<close>

definition isspace :: "nat \<Rightarrow> bool" where
  "isspace c =
     ((0x09 \<le> c \<and> c \<le> 0x0D) \<or> (0x1C \<le> c \<and> c \<le> 0x20) \<or> c = 0x85 \<or> c = 0xA0 \<or>
      c = 0x1680 \<or> (0x2000 \<le> c \<and> c \<le> 0x200A) \<or> c = 0x2028 \<or> c = 0x2029 \<or>
      c = 0x202F \<or> c = 0x205F \<or> c = 0x3000)"

definition strip :: "str \<Rightarrow> str" where
  "strip s = rev (dropWhile isspace (rev (dropWhile isspace s)))"

text \<open>
  \<^verbatim>\<open>s.lower()\<close> maps every code point to its full lowercase mapping, which for
  U+0130 (capital I with dot above) is the two code points U+0069 U+0307; no other
  code point has a lowercase mapping of another length. The ASCII letters and U+0130
  are written out; the mapping of the other code points from U+0080 on is the
  parameter \<open>ucd\<close>, the table of the Unicode database. (Python lowers U+03A3 to
  U+03C2 at the end of a word and to U+03C3 elsewhere; both are one code point, and
  \<open>ucd\<close> gives one of them.)
\<close>

definition lower_cp :: "(nat \<Rightarrow> str) \<Rightarrow> nat \<Rightarrow> str" where
  "lower_cp ucd c =
     (if 0x41 \<le> c \<and> c \<le> 0x5A then [c + 0x20]
      else if c < 0x80 then [c]
      else if c = 0x130 then [0x69, 0x307]
      else ucd c)"

definition lower :: "(nat \<Rightarrow> str) \<Rightarrow> str \<Rightarrow> str" where
  "lower ucd s = concat (map (lower_cp ucd) s)"

text \<open>\<^verbatim>\<open>s.replace(old, new)\<close> for \<open>old\<close> and \<open>new\<close> of one character each.\<close>

definition replace :: "nat \<Rightarrow> nat \<Rightarrow> str \<Rightarrow> str" where
  "replace old new s = map (\<lambda>c. if c = old then new else c) s"

text \<open>
  \<^verbatim>\<open>s.split(sep)\<close> for \<open>sep\<close> of one character: the pieces between the separators,
  so one piece more than there are separators, and \<^verbatim>\<open>['']\<close> for the empty string.
\<close>

fun split :: "str \<Rightarrow> nat \<Rightarrow> str list" where
  "split [] sep = [[]]"
| "split (c # cs) sep =
     (if c = sep then [] # split cs sep
      else (case split cs sep of [] \<Rightarrow> [[c]] | x # xs \<Rightarrow> (c # x) # xs))"

text \<open>The decimal digits of a count, as an f-string writes it.\<close>

fun str_nat :: "nat \<Rightarrow> str" where
  "str_nat n = (if n < 10 then [0x30 + n] else str_nat (n div 10) @ [0x30 + n mod 10])"

section \<open>The depot path of a local file\<close>

text \<open>
  \<^verbatim>\<open>local_to_perforce_path\<close>. \<^verbatim>\<open>os.path.splitdrive\<close> belongs to the platform's path
  module and is the parameter \<open>splitdrive\<close>. The index of the marker is looked up in
  the lowered tail and then used to slice the tail itself.
\<close>

definition local_to_perforce_path ::
  "(str \<Rightarrow> str \<times> str) \<Rightarrow> (nat \<Rightarrow> str) \<Rightarrow> str \<Rightarrow> str" where
  "local_to_perforce_path splitdrive ucd local_path =
     (let (drive, tail) = splitdrive local_path;
          index = str_find (lower ucd tail) (lit ''potter'')
      in if index \<noteq> - 1
         then lit ''//'' @ replace 0x5C 0x2F (drop (nat index) tail)
         else local_path)"

section \<open>The scan of the lines\<close>

text \<open>
  The loop of \<^verbatim>\<open>clean_ma_file\<close> over the lines of the file, with its three
  variables as the state.
\<close>

record scan =
  cleaned_lines :: "str list"
  skip_lines :: int
  modified :: bool

text \<open>The test that opens a block: both markers occur in the line.\<close>

definition block_start :: "str \<Rightarrow> bool" where
  "block_start line =
     (str_in (lit ''createNode script'') line \<and> str_in (lit ''vaccine_gene'') line)"

text \<open>\<^verbatim>\<open>line.strip().startswith(('addAttr', 'setAttr', '['))\<close>\<close>

definition inside_prefix :: "str \<Rightarrow> bool" where
  "inside_prefix line =
     (prefix (lit ''addAttr'') (strip line) \<or> prefix (lit ''setAttr'') (strip line) \<or>
      prefix (lit ''['') (strip line))"

text \<open>One pass through the loop body.\<close>

definition scrub_step :: "scan \<Rightarrow> str \<Rightarrow> scan" where
  "scrub_step s line =
     (if block_start line then s\<lparr>skip_lines := 10, modified := True\<rparr>
      else if skip_lines s > 0 then
        (if \<not> inside_prefix line \<and>
            \<not> str_in (lit ''createNode'') line \<and> \<not> str_in (lit ''breed_gene'') line
         then s\<lparr>skip_lines := 0, cleaned_lines := cleaned_lines s @ [line]\<rparr>
         else s\<lparr>skip_lines := skip_lines s - 1\<rparr>)
      else s\<lparr>cleaned_lines := cleaned_lines s @ [line]\<rparr>)"

definition scan_init :: scan where
  "scan_init = \<lparr>cleaned_lines = [], skip_lines = 0, modified = False\<rparr>"

definition scrub_loop :: "scan \<Rightarrow> str list \<Rightarrow> scan" where
  "scrub_loop s lines = foldl scrub_step s lines"

definition scrub :: "str list \<Rightarrow> str list \<times> bool" where
  "scrub lines =
     (let s = scrub_loop scan_init lines in (cleaned_lines s, modified s))"

text \<open>
  The lines the loop appends to \<open>cleaned_lines\<close> when it starts on \<open>ls\<close> with the
  counter at \<open>k\<close>: the loop's output as a function of the counter alone.
\<close>

fun kept_lines :: "int \<Rightarrow> str list \<Rightarrow> str list" where
  "kept_lines k [] = []"
| "kept_lines k (line # ls) =
     (if block_start line then kept_lines 10 ls
      else if k > 0 then
        (if \<not> inside_prefix line \<and>
            \<not> str_in (lit ''createNode'') line \<and> \<not> str_in (lit ''breed_gene'') line
         then line # kept_lines 0 ls
         else kept_lines (k - 1) ls)
      else line # kept_lines k ls)"

section \<open>Checking out, cleaning and submitting a file\<close>

text \<open>
  The exceptions \<^verbatim>\<open>clean_ma_file\<close> names, with the text of \<^verbatim>\<open>str(e)\<close>, and any other.
\<close>

datatype exn = P4Exception str | PermissionError str | OtherError str

text \<open>The calls made on the Perforce connection, in the order they are made.\<close>

datatype p4_cmd =
  Connect | Edit str | FetchChange | Submit str "str list" | Revert str | Disconnect

text \<open>
  What the outside answers during one call of \<^verbatim>\<open>clean_ma_file\<close>: for every
  Perforce command and every file operation, the exception it raises or the value it
  returns. \<open>path_exists\<close> is the answer of \<^verbatim>\<open>os.path.exists\<close> in the loop over
  the files. The constructor \<^verbatim>\<open>P4()\<close>, \<^verbatim>\<open>p4.disconnect()\<close> and the appends to the
  log widget are taken to return.
\<close>

record world =
  path_exists :: bool
  connect_result :: "exn + bool"
  edit_result :: "exn option"
  stat_result :: "exn + nat"
  chmod_result :: "exn option"
  read_result :: "exn + str list"
  write_result :: "exn option"
  fetch_change_result :: "exn option"
  submit_result :: "exn option"
  revert_result :: "exn option"

text \<open>
  What the program has done so far: the lines appended to the log widget, the lines
  printed, the Perforce calls, the \<^verbatim>\<open>chmod\<close> calls and the files written.
\<close>

record run =
  log_output :: "str list"
  printed :: "str list"
  p4_calls :: "p4_cmd list"
  chmods :: "(str \<times> nat) list"
  written :: "(str \<times> str list) list"

definition append_log :: "str \<Rightarrow> run \<Rightarrow> run" where
  "append_log msg r = r\<lparr>log_output := log_output r @ [msg]\<rparr>"

definition print :: "str \<Rightarrow> run \<Rightarrow> run" where
  "print msg r = r\<lparr>printed := printed r @ [msg]\<rparr>"

definition p4_call :: "p4_cmd \<Rightarrow> run \<Rightarrow> run" where
  "p4_call c r = r\<lparr>p4_calls := p4_calls r @ [c]\<rparr>"

text \<open>\<^verbatim>\<open>stat.S_IWRITE\<close> is \<open>0o200\<close>, bit 7 of the mode.\<close>

definition S_IWRITE :: nat where
  "S_IWRITE = 128"

text \<open>
  A function that can raise returns the exception, if any, beside the run: what was
  logged and called before the exception stays.
\<close>

definition unset_readonly :: "world \<Rightarrow> str \<Rightarrow> run \<Rightarrow> exn option \<times> run" where
  "unset_readonly w file_path r =
     (case stat_result w of
        Inl e \<Rightarrow> (Some e, r)
      | Inr file_permissions \<Rightarrow>
          if \<not> bit file_permissions 7 then
            (case chmod_result w of
               Some e \<Rightarrow> (Some e, r)
             | None \<Rightarrow> (None, r\<lparr>chmods := chmods r @ [(file_path, S_IWRITE)]\<rparr>))
          else (None, r))"

text \<open>The handler of a failed submit: log the error, then revert the file.\<close>

definition submit_failed :: "world \<Rightarrow> str \<Rightarrow> str \<Rightarrow> run \<Rightarrow> exn option \<times> run" where
  "submit_failed w depot_path e r =
     (revert_result w,
      p4_call (Revert depot_path)
        (append_log (lit ''Error submitting file: '' @ depot_path @ lit '' '' @ e) r))"

text \<open>The inner \<^verbatim>\<open>try\<close>: a changelist with the file, submitted.\<close>

definition submit_change :: "world \<Rightarrow> str \<Rightarrow> run \<Rightarrow> exn option \<times> run" where
  "submit_change w depot_path r =
     (let r1 = p4_call FetchChange r in
      case fetch_change_result w of
        Some (P4Exception e) \<Rightarrow> submit_failed w depot_path e r1
      | Some e \<Rightarrow> (Some e, r1)
      | None \<Rightarrow>
          (let r2 = p4_call (Submit (lit ''Removed Vaccine virus from file'') [depot_path]) r1 in
           case submit_result w of
             Some (P4Exception e) \<Rightarrow> submit_failed w depot_path e r2
           | Some e \<Rightarrow> (Some e, r2)
           | None \<Rightarrow> (None, append_log (lit ''Submitted: '' @ depot_path) r2)))"

text \<open>From the read of the file to the end of the outer \<^verbatim>\<open>try\<close> body.\<close>

definition clean_lines ::
  "world \<Rightarrow> str \<Rightarrow> str \<Rightarrow> run \<Rightarrow> exn option \<times> run" where
  "clean_lines w file_path depot_path r =
     (case read_result w of
        Inl e \<Rightarrow> (Some e, r)
      | Inr lines \<Rightarrow>
          (let (cleaned, changed) = scrub lines in
           if changed then
             (case write_result w of
                Some e \<Rightarrow> (Some e, r)
              | None \<Rightarrow>
                  submit_change w depot_path
                    (append_log (lit ''Cleaned: '' @ file_path)
                       (r\<lparr>written := written r @ [(file_path, cleaned)]\<rparr>)))
           else (None, append_log (lit ''No changes were made: '' @ file_path) r)))"

text \<open>The body of the outer \<^verbatim>\<open>try\<close>.\<close>

definition clean_body ::
  "(str \<Rightarrow> str \<times> str) \<Rightarrow> (nat \<Rightarrow> str) \<Rightarrow> world \<Rightarrow> str \<Rightarrow> run \<Rightarrow> exn option \<times> run" where
  "clean_body splitdrive ucd w file_path r =
     (let r1 = p4_call Connect r in
      case connect_result w of
        Inl e \<Rightarrow> (Some e, r1)
      | Inr False \<Rightarrow> (None, append_log (lit ''Failed to connect to Perforce.'') r1)
      | Inr True \<Rightarrow>
          (let depot_path = local_to_perforce_path splitdrive ucd file_path;
               r2 = p4_call (Edit depot_path)
                      (append_log (lit ''Checking out file: '' @ depot_path) r1)
           in case edit_result w of
                Some (P4Exception e) \<Rightarrow>
                  (None,
                   append_log
                     (lit ''Error checking out file: '' @ depot_path @ lit '' '' @ e) r2)
              | Some e \<Rightarrow> (Some e, r2)
              | None \<Rightarrow>
                  (case unset_readonly w file_path r2 of
                     (Some e, r3) \<Rightarrow> (Some e, r3)
                   | (None, r3) \<Rightarrow> clean_lines w file_path depot_path r3)))"

text \<open>
  \<^verbatim>\<open>clean_ma_file\<close>: the body, the handler of \<^verbatim>\<open>PermissionError\<close> (every other
  exception goes on to the caller) and the \<^verbatim>\<open>finally\<close> clause, which disconnects.
\<close>

definition clean_ma_file ::
  "(str \<Rightarrow> str \<times> str) \<Rightarrow> (nat \<Rightarrow> str) \<Rightarrow> world \<Rightarrow> str \<Rightarrow> run \<Rightarrow> exn option \<times> run" where
  "clean_ma_file splitdrive ucd w file_path r =
     (let (raised, r1) = clean_body splitdrive ucd w file_path r;
          (raised', r2) =
            (case raised of
               Some (PermissionError e) \<Rightarrow>
                 (let msg = lit ''Error: '' @ e @ lit '' - Could not modify '' @ file_path
                  in (None, print msg (append_log msg r1)))
             | _ \<Rightarrow> (raised, r1))
      in (raised', p4_call Disconnect r2))"

text \<open>
  The \<^verbatim>\<open>for\<close> loop of \<^verbatim>\<open>clean_pasted_files\<close> over the pasted paths, from the
  \<open>i\<close>-th on; \<open>worlds i\<close> is the outside during the \<open>i\<close>-th pass. An exception that
  leaves \<^verbatim>\<open>clean_ma_file\<close> leaves the loop, and the paths that remain are not looked
  at. The guard in front of the loop is in \<open>clean_pasted_files\<close> below.
\<close>

fun clean_files ::
  "(str \<Rightarrow> str \<times> str) \<Rightarrow> (nat \<Rightarrow> str) \<Rightarrow> (nat \<Rightarrow> world) \<Rightarrow> nat \<Rightarrow> str list \<Rightarrow>
     run \<times> nat \<Rightarrow> exn option \<times> run \<times> nat" where
  "clean_files splitdrive ucd worlds i [] (r, cleaned_count) = (None, r, cleaned_count)"
| "clean_files splitdrive ucd worlds i (p # ps) (r, cleaned_count) =
     (let file_path = strip p in
      if path_exists (worlds i) \<and> suffix (lit ''.ma'') file_path then
        (case clean_ma_file splitdrive ucd (worlds i) file_path r of
           (Some e, r') \<Rightarrow> (Some e, r', cleaned_count)
         | (None, r') \<Rightarrow> clean_files splitdrive ucd worlds (Suc i) ps (r', cleaned_count + 1))
      else
        (let msg = lit ''Invalid path: '' @ file_path in
         clean_files splitdrive ucd worlds (Suc i) ps
           (print msg (append_log msg r), cleaned_count)))"

text \<open>
  \<^verbatim>\<open>clean_pasted_files\<close>: the log is cleared, the pasted text is stripped and split
  into lines, and the loop runs unless nothing was pasted. The third component is the
  text and the style sheet given to the result label, or \<open>None\<close> when an exception
  left the loop before the label was set.
\<close>

definition clean_pasted_files ::
  "(str \<Rightarrow> str \<times> str) \<Rightarrow> (nat \<Rightarrow> str) \<Rightarrow> (nat \<Rightarrow> world) \<Rightarrow> str \<Rightarrow> run \<Rightarrow>
     exn option \<times> run \<times> (str \<times> str) option" where
  "clean_pasted_files splitdrive ucd worlds pasted_text r =
     (let r0 = r\<lparr>log_output := []\<rparr>;
          file_paths = split (strip pasted_text) 0x0A
      in if file_paths = [] \<or> file_paths = [[]] then
           (None, r0, Some (lit ''No valid file paths provided.'', lit ''color: red;''))
         else
           (case clean_files splitdrive ucd worlds 0 file_paths (r0, 0) of
              (Some e, r', cleaned_count) \<Rightarrow> (Some e, r', None)
            | (None, r', cleaned_count) \<Rightarrow>
                (None, r',
                 Some (lit ''Processed '' @ str_nat cleaned_count @ lit '' files.'',
                       lit ''color: green;''))))"

section \<open>Properties of the scan\<close>

lemmas scan_eval =
  scrub_def scrub_loop_def scan_init_def scrub_step_def block_start_def
  inside_prefix_def strip_def isspace_def lit_def

lemma scrub_loop_Nil: "scrub_loop s [] = s"
  by (simp add: scrub_loop_def)

lemma scrub_loop_Cons: "scrub_loop s (l # ls) = scrub_loop (scrub_step s l) ls"
  by (simp add: scrub_loop_def)

lemma scrub_loop_append: "scrub_loop s (xs @ ys) = scrub_loop (scrub_loop s xs) ys"
  by (simp add: scrub_loop_def)

text \<open>The loop only appends, and what it appends depends on the counter alone.\<close>

lemma cleaned_scrub_loop:
  "cleaned_lines (scrub_loop s ls) = cleaned_lines s @ kept_lines (skip_lines s) ls"
  by (induction ls arbitrary: s) (simp_all add: scrub_loop_Nil scrub_loop_Cons scrub_step_def)

lemma modified_scrub_loop:
  "modified (scrub_loop s ls) = (modified s \<or> (\<exists>l \<in> set ls. block_start l))"
  by (induction ls arbitrary: s) (auto simp add: scrub_loop_Nil scrub_loop_Cons scrub_step_def)

lemma fst_scrub: "fst (scrub ls) = kept_lines 0 ls"
  by (simp add: scrub_def Let_def cleaned_scrub_loop scan_init_def)

lemma snd_scrub: "snd (scrub ls) = (\<exists>l \<in> set ls. block_start l)"
  by (simp add: scrub_def Let_def modified_scrub_loop scan_init_def)

lemma kept_lines_clean:
  "k \<le> 0 \<Longrightarrow> \<forall>l \<in> set ls. \<not> block_start l \<Longrightarrow> kept_lines k ls = ls"
  by (induction ls) simp_all

lemma kept_lines_subseq: "subseq (kept_lines k ls) ls"
proof (induction ls arbitrary: k)
  case Nil
  show ?case by simp
next
  case (Cons l ls)
  have dropped: "subseq (kept_lines j ls) (l # ls)" for j
    using Cons.IH [of j] by (rule list_emb_Cons)
  have appended: "subseq (l # kept_lines j ls) (l # ls)" for j
    using Cons.IH [of j] by simp
  show ?case
    by (simp del: subseq_Cons2_iff add: dropped appended)
qed

lemma kept_lines_no_start: "l \<in> set (kept_lines k ls) \<Longrightarrow> \<not> block_start l"
  by (induction ls arbitrary: k) (auto split: if_splits)

text \<open>
  C2. When no line of the input has both markers of a block start, the scan returns
  the input itself, line for line, and \<open>modified\<close> is false.
\<close>

theorem scrub_no_block_start:
  "\<forall>l \<in> set ls. \<not> block_start l \<Longrightarrow> scrub ls = (ls, False)"
  by (simp add: prod_eq_iff fst_scrub snd_scrub kept_lines_clean)

theorem scrub_no_block_start_witness:
  \<open>scrub [lit ''requires maya "2020";\<newline>'', lit ''createNode transform -n "a";\<newline>'',
          lit ''  setAttr ".v" no;\<newline>'']
   = ([lit ''requires maya "2020";\<newline>'', lit ''createNode transform -n "a";\<newline>'',
       lit ''  setAttr ".v" no;\<newline>''], False)\<close>
proof -
  have \<open>\<forall>l \<in> set [lit ''requires maya "2020";\<newline>'', lit ''createNode transform -n "a";\<newline>'',
          lit ''  setAttr ".v" no;\<newline>'']. \<not> block_start l\<close>
    by (simp add: block_start_def lit_def)
  then show ?thesis
    by (rule scrub_no_block_start)
qed

text \<open>
  C5. The scan is idempotent: run on the lines it returned, it returns them again,
  and \<open>modified\<close> is false on this second pass.
\<close>

theorem scrub_idempotent: "scrub (fst (scrub ls)) = (fst (scrub ls), False)"
  by (simp add: prod_eq_iff fst_scrub snd_scrub kept_lines_clean kept_lines_no_start)

text \<open>
  C6. The lines the scan returns are a subsequence of the input: lines are only
  removed, never changed, reordered or repeated.
\<close>

theorem scrub_subseq: "subseq (fst (scrub ls)) ls"
  by (simp add: fst_scrub kept_lines_subseq)

text \<open>
  C7. The example of the specification: a block start, two attribute lines and a line
  of other content give that last line alone, and \<open>modified\<close> is true.
\<close>

theorem scrub_example:
  \<open>scrub [lit ''createNode script "vaccine_gene"\<newline>'', lit ''addAttr ...\<newline>'',
          lit ''setAttr ...\<newline>'', lit ''other content\<newline>'']
   = ([lit ''other content\<newline>''], True)\<close>
  by (simp add: scan_eval)

text \<open>
  C10. No line the scan returns has both markers of a block start, since such a
  line is dropped whatever the counter is; and \<open>modified\<close> is true exactly when some
  line of the input has both markers.
\<close>

theorem scrub_drops_every_block_start:
  "(\<forall>l \<in> set (fst (scrub ls)). \<not> block_start l) \<and>
   (snd (scrub ls) \<longleftrightarrow> (\<exists>l \<in> set ls. block_start l))"
  by (simp add: fst_scrub snd_scrub kept_lines_no_start)

theorem scrub_drops_every_block_start_witness:
  \<open>\<not> block_start (lit ''other content\<newline>'') \<and>
   snd (scrub [lit ''createNode script "vaccine_gene"\<newline>'', lit ''addAttr ...\<newline>'',
               lit ''createNode script -n "vaccine_gene1";\<newline>'', lit ''other content\<newline>''])\<close>
proof -
  let ?ls = \<open>[lit ''createNode script "vaccine_gene"\<newline>'', lit ''addAttr ...\<newline>'',
              lit ''createNode script -n "vaccine_gene1";\<newline>'', lit ''other content\<newline>'']\<close>
  have out: \<open>fst (scrub ?ls) = [lit ''other content\<newline>'']\<close>
    by (simp add: scan_eval)
  have start: \<open>block_start (lit ''createNode script "vaccine_gene"\<newline>'')\<close>
    by (simp add: block_start_def lit_def)
  from scrub_drops_every_block_start [of ?ls] out start show ?thesis
    by simp
qed

section \<open>Blocks\<close>

lemma str_in_sublist: "str_in sub s \<longleftrightarrow> sublist sub s"
  by (induction s) (simp_all add: sublist_Cons_right)

lemma block_start_createNode: "block_start l \<Longrightarrow> str_in (lit ''createNode'') l"
proof -
  assume "block_start l"
  then have "sublist (lit ''createNode script'') l"
    by (simp add: block_start_def str_in_sublist)
  moreover have "sublist (lit ''createNode'') (lit ''createNode script'')"
    by (rule prefix_imp_sublist) (simp add: lit_def)
  ultimately show ?thesis
    unfolding str_in_sublist by (rule sublist_order.order.trans [rotated])
qed

text \<open>
  While the counter is positive the loop drops every line that starts with an
  attribute prefix or holds one of the two markers; fewer than ten such lines after a
  block start leave the counter positive.
\<close>

lemma scrub_loop_block_lines:
  assumes "\<forall>l \<in> set ins. inside_prefix l \<or> str_in (lit ''createNode'') l \<or>
             str_in (lit ''breed_gene'') l"
    and "int (length ins) < skip_lines s" and "length ins \<le> 9"
  shows "0 < skip_lines (scrub_loop s ins) \<and>
         cleaned_lines (scrub_loop s ins) = cleaned_lines s"
  using assms
proof (induction ins arbitrary: s)
  case Nil
  then show ?case by (simp add: scrub_loop_Nil)
next
  case (Cons l ins)
  let ?s = "scrub_step s l"
  have step: "cleaned_lines ?s = cleaned_lines s \<and> int (length ins) < skip_lines ?s"
    using Cons.prems by (auto simp add: scrub_step_def)
  have "0 < skip_lines (scrub_loop ?s ins) \<and>
        cleaned_lines (scrub_loop ?s ins) = cleaned_lines ?s"
    using Cons.prems step by (intro Cons.IH) simp_all
  with step show ?case by (simp add: scrub_loop_Cons)
qed

lemma scrub_loop_after_start:
  assumes "block_start start"
    and "\<forall>l \<in> set ins. inside_prefix l \<or> str_in (lit ''createNode'') l \<or>
           str_in (lit ''breed_gene'') l"
    and "length ins \<le> 9"
  shows "0 < skip_lines (scrub_loop scan_init (pre @ start # ins)) \<and>
         cleaned_lines (scrub_loop scan_init (pre @ start # ins)) = fst (scrub pre)"
proof -
  let ?s = "scrub_step (scrub_loop scan_init pre) start"
  have s: "skip_lines ?s = 10 \<and> cleaned_lines ?s = fst (scrub pre)"
    using assms(1) by (simp add: scrub_step_def scrub_def Let_def)
  have "0 < skip_lines (scrub_loop ?s ins) \<and> cleaned_lines (scrub_loop ?s ins) = cleaned_lines ?s"
    using assms(2,3) s by (intro scrub_loop_block_lines) simp_all
  with s show ?thesis
    by (simp add: scrub_loop_append scrub_loop_Cons)
qed

text \<open>A line that ends the skipping is appended and leaves the counter at 0.\<close>

lemma scrub_step_early_exit:
  assumes "\<not> inside_prefix line" and "\<not> str_in (lit ''createNode'') line"
    and "\<not> str_in (lit ''breed_gene'') line" and "0 < skip_lines s"
  shows "scrub_step s line = s\<lparr>skip_lines := 0, cleaned_lines := cleaned_lines s @ [line]\<rparr>"
  using assms block_start_createNode [of line] by (auto simp add: scrub_step_def)

lemma fst_scrub_split:
  assumes "skip_lines (scrub_loop scan_init xs) = 0"
  shows "fst (scrub (xs @ ys)) = fst (scrub xs) @ fst (scrub ys)"
  using assms by (simp add: scrub_def Let_def scrub_loop_append cleaned_scrub_loop scan_init_def)

text \<open>
  A block start, at most nine lines that the skipping drops, and a line that ends the
  skipping: the state at that line, and the output of the whole scan.
\<close>

lemma scrub_block_exit:
  assumes "block_start start"
    and "length ins \<le> 9"
    and "\<forall>l \<in> set ins. inside_prefix l \<or> str_in (lit ''createNode'') l \<or>
           str_in (lit ''breed_gene'') l"
    and "\<not> inside_prefix line" and "\<not> str_in (lit ''createNode'') line"
    and "\<not> str_in (lit ''breed_gene'') line"
  shows "0 < skip_lines (scrub_loop scan_init (pre @ start # ins))"
    and "scrub_loop scan_init (pre @ start # ins @ [line]) =
           (scrub_loop scan_init (pre @ start # ins))
             \<lparr>skip_lines := 0, cleaned_lines := fst (scrub pre) @ [line]\<rparr>"
    and "fst (scrub (pre @ start # ins @ line # rest)) =
           fst (scrub pre) @ line # fst (scrub rest)"
proof -
  let ?s = "scrub_loop scan_init (pre @ start # ins)"
  have before: "0 < skip_lines ?s \<and> cleaned_lines ?s = fst (scrub pre)"
    using assms(1,3,2) by (rule scrub_loop_after_start)
  then show "0 < skip_lines ?s" by simp
  have "scrub_loop scan_init ((pre @ start # ins) @ [line]) = scrub_step ?s line"
    by (simp only: scrub_loop_append scrub_loop_Cons scrub_loop_Nil)
  also have "\<dots> = ?s\<lparr>skip_lines := 0, cleaned_lines := cleaned_lines ?s @ [line]\<rparr>"
    using assms(4-6) before by (intro scrub_step_early_exit) simp_all
  finally have at: "scrub_loop scan_init ((pre @ start # ins) @ [line]) =
      ?s\<lparr>skip_lines := 0, cleaned_lines := fst (scrub pre) @ [line]\<rparr>"
    using before by simp
  then show "scrub_loop scan_init (pre @ start # ins @ [line]) =
      ?s\<lparr>skip_lines := 0, cleaned_lines := fst (scrub pre) @ [line]\<rparr>"
    by simp
  from at have "skip_lines (scrub_loop scan_init ((pre @ start # ins) @ [line])) = 0"
    by simp
  then have "fst (scrub (((pre @ start # ins) @ [line]) @ rest)) =
      fst (scrub ((pre @ start # ins) @ [line])) @ fst (scrub rest)"
    by (rule fst_scrub_split)
  moreover have "fst (scrub ((pre @ start # ins) @ [line])) = fst (scrub pre) @ [line]"
    using at by (simp add: scrub_def Let_def)
  ultimately show "fst (scrub (pre @ start # ins @ line # rest)) =
      fst (scrub pre) @ line # fst (scrub rest)"
    by simp
qed

lemma scrub_step_block_start:
  "block_start line \<Longrightarrow> scrub_step s line = s\<lparr>skip_lines := 10, modified := True\<rparr>"
  by (simp add: scrub_step_def)

lemma scrub_step_skipping:
  "\<not> block_start line \<Longrightarrow> 0 < skip_lines s \<Longrightarrow>
   scrub_step s line =
     (if inside_prefix line then s\<lparr>skip_lines := skip_lines s - 1\<rparr>
      else if \<not> str_in (lit ''createNode'') line \<and> \<not> str_in (lit ''breed_gene'') line
        then s\<lparr>skip_lines := 0, cleaned_lines := cleaned_lines s @ [line]\<rparr>
      else s\<lparr>skip_lines := skip_lines s - 1\<rparr>)"
  by (simp add: scrub_step_def)

text \<open>
  C1, as amended. Whatever came before it and whatever the counter is, a line with
  both markers of a block start sets the counter to 10 and \<open>modified\<close> to true and is
  not appended: met while the counter is positive, it sets the counter to 10 again.
  A line without both markers that is met while the counter is positive is handled
  by the rules of the skipping: dropped with the counter decremented when it starts
  with an attribute prefix or holds one of the markers \<open>createNode\<close> and
  \<open>breed_gene\<close>, appended with the counter set to 0 otherwise.
\<close>

theorem scrub_block_start_any_counter:
  "(block_start line \<longrightarrow>
      scrub_loop scan_init (pre @ [line]) =
        (scrub_loop scan_init pre)\<lparr>skip_lines := 10, modified := True\<rparr>) \<and>
   (\<not> block_start line \<and> 0 < skip_lines (scrub_loop scan_init pre) \<longrightarrow>
      scrub_loop scan_init (pre @ [line]) =
        (if inside_prefix line
           then (scrub_loop scan_init pre)
                  \<lparr>skip_lines := skip_lines (scrub_loop scan_init pre) - 1\<rparr>
         else if \<not> str_in (lit ''createNode'') line \<and> \<not> str_in (lit ''breed_gene'') line
           then (scrub_loop scan_init pre)
                  \<lparr>skip_lines := 0,
                   cleaned_lines := cleaned_lines (scrub_loop scan_init pre) @ [line]\<rparr>
         else (scrub_loop scan_init pre)
                \<lparr>skip_lines := skip_lines (scrub_loop scan_init pre) - 1\<rparr>))"
proof -
  have "scrub_loop scan_init (pre @ [line]) = scrub_step (scrub_loop scan_init pre) line"
    by (simp only: scrub_loop_append scrub_loop_Cons scrub_loop_Nil)
  then show ?thesis
    using scrub_step_block_start [of line "scrub_loop scan_init pre"]
      scrub_step_skipping [of line "scrub_loop scan_init pre"]
    by simp
qed

theorem scrub_block_start_any_counter_witness:
  \<open>scrub_loop scan_init
     [lit ''createNode script -n "vaccine_gene";\<newline>'', lit ''  addAttr -ci true -sn "nts";\<newline>'',
      lit ''createNode script -n "vaccine_gene1";\<newline>'']
     = \<lparr>cleaned_lines = [], skip_lines = 10, modified = True\<rparr> \<and>
   scrub_loop scan_init
     [lit ''createNode script -n "vaccine_gene";\<newline>'', lit ''  addAttr -ci true -sn "nts";\<newline>'',
      lit ''createNode script -n "breed_gene";\<newline>'']
     = \<lparr>cleaned_lines = [], skip_lines = 8, modified = True\<rparr>\<close>
proof -
  let ?pre = \<open>[lit ''createNode script -n "vaccine_gene";\<newline>'',
               lit ''  addAttr -ci true -sn "nts";\<newline>'']\<close>
  have pre: "scrub_loop scan_init ?pre = \<lparr>cleaned_lines = [], skip_lines = 9, modified = True\<rparr>"
    by (simp add: scan_eval)
  have a: \<open>block_start (lit ''createNode script -n "vaccine_gene1";\<newline>'')\<close>
    by (simp add: block_start_def lit_def)
  have b: \<open>\<not> block_start (lit ''createNode script -n "breed_gene";\<newline>'')\<close>
    by (simp add: block_start_def lit_def)
  have c: \<open>\<not> inside_prefix (lit ''createNode script -n "breed_gene";\<newline>'')\<close>
    by (simp add: inside_prefix_def strip_def isspace_def lit_def)
  have d: \<open>str_in (lit ''createNode'') (lit ''createNode script -n "breed_gene";\<newline>'')\<close>
    by (simp add: lit_def)
  from scrub_block_start_any_counter
         [of \<open>lit ''createNode script -n "vaccine_gene1";\<newline>''\<close> ?pre]
       scrub_block_start_any_counter
         [of \<open>lit ''createNode script -n "breed_gene";\<newline>''\<close> ?pre]
       pre a b c d
  show ?thesis by simp
qed

text \<open>
  Against C1 as it is stated: after a block start and one attribute line the counter
  is 9, and a second block start met there sets it to 10, where the rules of the
  skipping would have left 8.
\<close>

theorem scrub_block_start_while_skipping:
  \<open>skip_lines (scrub_loop scan_init
      [lit ''createNode script -n "vaccine_gene";\<newline>'', lit ''  addAttr -ci true -sn "nts";\<newline>'']) = 9 \<and>
   block_start (lit ''createNode script -n "vaccine_gene1";\<newline>'') \<and>
   skip_lines (scrub_loop scan_init
      [lit ''createNode script -n "vaccine_gene";\<newline>'', lit ''  addAttr -ci true -sn "nts";\<newline>'',
       lit ''createNode script -n "vaccine_gene1";\<newline>'']) = 10\<close>
  by (simp add: scan_eval)

text \<open>
  C3, as amended. A block of N lines, N at most 10: a block start and N - 1 lines that
  start, once stripped, with an attribute prefix. Whatever follows the block, and
  also when nothing follows it, the scan removes the block start and the N - 1 lines
  (after them the output is what the scan of the lines before the block gave, and
  what is appended later is taken from the lines after the block) and \<open>modified\<close> is
  true. The line after the block is kept, and the scan goes on from it as a fresh
  scan would, provided that line starts with no attribute prefix and holds neither
  \<open>createNode\<close> nor \<open>breed_gene\<close>.
\<close>

theorem scrub_removes_block:
  assumes "block_start start"
    and "length inside + 1 \<le> 10"
    and "\<forall>l \<in> set inside. inside_prefix l"
  shows "cleaned_lines (scrub_loop scan_init (pre @ start # inside)) = fst (scrub pre) \<and>
         (\<exists>ys. subseq ys follow \<and>
            scrub (pre @ start # inside @ follow) = (fst (scrub pre) @ ys, True)) \<and>
         (\<not> inside_prefix nxt \<and> \<not> str_in (lit ''createNode'') nxt \<and>
          \<not> str_in (lit ''breed_gene'') nxt \<longrightarrow>
            scrub (pre @ start # inside @ nxt # rest) =
              (fst (scrub pre) @ nxt # fst (scrub rest), True))"
proof -
  let ?s = "scrub_loop scan_init (pre @ start # inside)"
  have len: "length inside \<le> 9"
    using assms(2) by simp
  have dropped: "\<forall>l \<in> set inside. inside_prefix l \<or> str_in (lit ''createNode'') l \<or>
      str_in (lit ''breed_gene'') l"
    using assms(3) by simp
  have block: "cleaned_lines ?s = fst (scrub pre)"
    using scrub_loop_after_start [OF assms(1) dropped len, of pre] by simp
  have changed: "snd (scrub (pre @ start # inside @ more))" for more
    using assms(1) by (simp add: snd_scrub)
  have "fst (scrub (pre @ start # inside @ follow)) =
      fst (scrub pre) @ kept_lines (skip_lines ?s) follow"
  proof -
    have "scrub_loop scan_init (pre @ start # inside @ follow) = scrub_loop ?s follow"
      using scrub_loop_append [of scan_init "pre @ start # inside" follow] by simp
    moreover have "cleaned_lines (scrub_loop ?s follow) =
        cleaned_lines ?s @ kept_lines (skip_lines ?s) follow"
      by (rule cleaned_scrub_loop)
    ultimately show ?thesis
      by (simp add: scrub_def Let_def block)
  qed
  with changed [of follow]
  have "scrub (pre @ start # inside @ follow) =
      (fst (scrub pre) @ kept_lines (skip_lines ?s) follow, True)"
    by (simp add: prod_eq_iff)
  then have whatever: "\<exists>ys. subseq ys follow \<and>
      scrub (pre @ start # inside @ follow) = (fst (scrub pre) @ ys, True)"
    using kept_lines_subseq [of "skip_lines ?s" follow] by blast
  have kept: "scrub (pre @ start # inside @ nxt # rest) =
      (fst (scrub pre) @ nxt # fst (scrub rest), True)"
    if "\<not> inside_prefix nxt" and "\<not> str_in (lit ''createNode'') nxt"
      and "\<not> str_in (lit ''breed_gene'') nxt"
  proof -
    have "fst (scrub (pre @ start # inside @ nxt # rest)) =
        fst (scrub pre) @ nxt # fst (scrub rest)"
      using assms(1) len dropped that by (rule scrub_block_exit(3))
    with changed [of "nxt # rest"] show ?thesis
      by (simp add: prod_eq_iff)
  qed
  from block whatever kept show ?thesis
    by blast
qed

theorem scrub_removes_block_witness:
  \<open>scrub [lit ''requires maya "2020";\<newline>'',
          lit ''createNode script -n "vaccine_gene";\<newline>'',
          lit ''  addAttr -ci true -sn "nts" -ln "notes" -dt "string";\<newline>'',
          lit ''  setAttr ".st" 1;\<newline>'',
          lit ''select -ne :time1;\<newline>'',
          lit ''  setAttr ".o" 1;\<newline>'']
   = ([lit ''requires maya "2020";\<newline>'', lit ''select -ne :time1;\<newline>'',
       lit ''  setAttr ".o" 1;\<newline>''], True)\<close>
proof -
  let ?pre = \<open>[lit ''requires maya "2020";\<newline>'']\<close>
  let ?start = \<open>lit ''createNode script -n "vaccine_gene";\<newline>''\<close>
  let ?inside = \<open>[lit ''  addAttr -ci true -sn "nts" -ln "notes" -dt "string";\<newline>'',
                  lit ''  setAttr ".st" 1;\<newline>'']\<close>
  let ?nxt = \<open>lit ''select -ne :time1;\<newline>''\<close>
  let ?rest = \<open>[lit ''  setAttr ".o" 1;\<newline>'']\<close>
  have h1: "block_start ?start"
    by (simp add: block_start_def lit_def)
  have h2: "length ?inside + 1 \<le> 10"
    by simp
  have h3: "\<forall>l \<in> set ?inside. inside_prefix l"
    by (simp add: inside_prefix_def strip_def isspace_def lit_def)
  have h4: "\<not> inside_prefix ?nxt"
    by (simp add: inside_prefix_def strip_def isspace_def lit_def)
  have h5: "\<not> str_in (lit ''createNode'') ?nxt"
    by (simp add: lit_def)
  have h6: "\<not> str_in (lit ''breed_gene'') ?nxt"
    by (simp add: lit_def)
  have pre: "fst (scrub ?pre) = ?pre"
    by (simp add: scan_eval)
  have rest: "fst (scrub ?rest) = ?rest"
    by (simp add: scan_eval)
  have "\<not> inside_prefix ?nxt \<and> \<not> str_in (lit ''createNode'') ?nxt \<and>
      \<not> str_in (lit ''breed_gene'') ?nxt \<longrightarrow>
        scrub (?pre @ ?start # ?inside @ ?nxt # ?rest) =
          (fst (scrub ?pre) @ ?nxt # fst (scrub ?rest), True)"
    using scrub_removes_block [OF h1 h2 h3, where pre = ?pre and nxt = ?nxt and rest = ?rest]
    by blast
  with h4 h5 h6 pre rest show ?thesis
    by simp
qed

text \<open>
  Against C3 as it is stated: the line after a block of two lines declares a node;
  it starts with no attribute prefix, and the scan drops it, and the attribute line
  under it, with the block.
\<close>

theorem scrub_block_eats_next_node:
  \<open>block_start (lit ''createNode script -n "vaccine_gene";\<newline>'') \<and>
   inside_prefix (lit ''  addAttr -ci true -sn "nts" -ln "notes" -dt "string";\<newline>'') \<and>
   \<not> inside_prefix (lit ''createNode transform -n "pCube1";\<newline>'') \<and>
   scrub [lit ''createNode script -n "vaccine_gene";\<newline>'',
          lit ''  addAttr -ci true -sn "nts" -ln "notes" -dt "string";\<newline>'',
          lit ''createNode transform -n "pCube1";\<newline>'',
          lit ''  setAttr ".v" no;\<newline>'']
     = ([], True)\<close>
  by (simp add: scan_eval)

text \<open>
  C4, as amended. After a block start and fewer than nine lines that the skipping
  drops, the counter is still positive; a line that then starts with no attribute
  prefix and holds neither \<open>createNode\<close> nor \<open>breed_gene\<close> sets the counter to 0
  and is appended, and the lines after it are scanned as a fresh scan would scan
  them: they are kept up to the next line with both markers of a block start, and
  all of them are kept when no such line follows.
\<close>

theorem scrub_early_exit:
  assumes "block_start start"
    and "length ins < 9"
    and "\<forall>l \<in> set ins. inside_prefix l \<or> str_in (lit ''createNode'') l \<or>
           str_in (lit ''breed_gene'') l"
    and "\<not> inside_prefix line" and "\<not> str_in (lit ''createNode'') line"
    and "\<not> str_in (lit ''breed_gene'') line"
  shows "0 < skip_lines (scrub_loop scan_init (pre @ start # ins)) \<and>
         scrub_loop scan_init (pre @ start # ins @ [line]) =
           (scrub_loop scan_init (pre @ start # ins))
             \<lparr>skip_lines := 0, cleaned_lines := fst (scrub pre) @ [line]\<rparr> \<and>
         fst (scrub (pre @ start # ins @ line # rest)) =
           fst (scrub pre) @ line # fst (scrub rest) \<and>
         ((\<forall>l \<in> set rest. \<not> block_start l) \<longrightarrow>
           fst (scrub (pre @ start # ins @ line # rest)) = fst (scrub pre) @ line # rest)"
proof -
  have len: "length ins \<le> 9"
    using assms(2) by simp
  note exit = scrub_block_exit [OF assms(1) len assms(3-6)]
  have "fst (scrub rest) = rest" if "\<forall>l \<in> set rest. \<not> block_start l"
    using that by (simp add: fst_scrub kept_lines_clean)
  with exit(1) [of pre] exit(2) [of pre] exit(3) [of pre rest] show ?thesis
    by simp
qed

theorem scrub_early_exit_witness:
  \<open>scrub_loop scan_init
     [lit ''createNode script -n "vaccine_gene";\<newline>'',
      lit ''  addAttr -ci true -sn "nts" -ln "notes" -dt "string";\<newline>'',
      lit ''  rename -uid "A1";\<newline>'']
     = \<lparr>cleaned_lines = [lit ''  rename -uid "A1";\<newline>''], skip_lines = 0, modified = True\<rparr> \<and>
   fst (scrub
     [lit ''createNode script -n "vaccine_gene";\<newline>'',
      lit ''  addAttr -ci true -sn "nts" -ln "notes" -dt "string";\<newline>'',
      lit ''  rename -uid "A1";\<newline>'',
      lit ''  setAttr ".st" 1;\<newline>'',
      lit ''createNode script -n "breed_gene";\<newline>''])
     = [lit ''  rename -uid "A1";\<newline>'', lit ''  setAttr ".st" 1;\<newline>'',
        lit ''createNode script -n "breed_gene";\<newline>'']\<close>
proof -
  let ?start = \<open>lit ''createNode script -n "vaccine_gene";\<newline>''\<close>
  let ?ins = \<open>[lit ''  addAttr -ci true -sn "nts" -ln "notes" -dt "string";\<newline>'']\<close>
  let ?line = \<open>lit ''  rename -uid "A1";\<newline>''\<close>
  let ?rest = \<open>[lit ''  setAttr ".st" 1;\<newline>'', lit ''createNode script -n "breed_gene";\<newline>'']\<close>
  have h1: "block_start ?start"
    by (simp add: block_start_def lit_def)
  have h2: "length ?ins < 9"
    by simp
  have h3: "\<forall>l \<in> set ?ins. inside_prefix l \<or> str_in (lit ''createNode'') l \<or>
      str_in (lit ''breed_gene'') l"
    by (simp add: inside_prefix_def strip_def isspace_def lit_def)
  have h4: "\<not> inside_prefix ?line"
    by (simp add: inside_prefix_def strip_def isspace_def lit_def)
  have h5: "\<not> str_in (lit ''createNode'') ?line"
    by (simp add: lit_def)
  have h6: "\<not> str_in (lit ''breed_gene'') ?line"
    by (simp add: lit_def)
  have rest: "\<forall>l \<in> set ?rest. \<not> block_start l"
    by (simp add: block_start_def lit_def)
  have before: "scrub_loop scan_init (?start # ?ins) =
      \<lparr>cleaned_lines = [], skip_lines = 9, modified = True\<rparr>"
    by (simp add: scan_eval)
  have empty: "fst (scrub []) = []"
    by (simp add: scan_eval)
  have "0 < skip_lines (scrub_loop scan_init ([] @ ?start # ?ins)) \<and>
      scrub_loop scan_init ([] @ ?start # ?ins @ [?line]) =
        (scrub_loop scan_init ([] @ ?start # ?ins))
          \<lparr>skip_lines := 0, cleaned_lines := fst (scrub []) @ [?line]\<rparr> \<and>
      fst (scrub ([] @ ?start # ?ins @ ?line # ?rest)) =
        fst (scrub []) @ ?line # fst (scrub ?rest) \<and>
      ((\<forall>l \<in> set ?rest. \<not> block_start l) \<longrightarrow>
        fst (scrub ([] @ ?start # ?ins @ ?line # ?rest)) = fst (scrub []) @ ?line # ?rest)"
    using h1 h2 h3 h4 h5 h6 by (rule scrub_early_exit)
  then have "scrub_loop scan_init ([] @ ?start # ?ins @ [?line]) =
        (scrub_loop scan_init ([] @ ?start # ?ins))
          \<lparr>skip_lines := 0, cleaned_lines := fst (scrub []) @ [?line]\<rparr>"
    and "fst (scrub ([] @ ?start # ?ins @ ?line # ?rest)) = fst (scrub []) @ ?line # ?rest"
    using rest by blast+
  then show ?thesis
    using before empty by simp
qed

text \<open>
  Against C4 as it is stated: the line after the block start ends the skipping and
  is kept, but of the two lines after it the second block start is not kept.
\<close>

theorem later_block_start_is_dropped:
  \<open>block_start (lit ''createNode script -n "vaccine_gene";\<newline>'') \<and>
   \<not> inside_prefix (lit ''  rename -uid "A1";\<newline>'') \<and>
   \<not> str_in (lit ''createNode'') (lit ''  rename -uid "A1";\<newline>'') \<and>
   \<not> str_in (lit ''breed_gene'') (lit ''  rename -uid "A1";\<newline>'') \<and>
   scrub [lit ''createNode script -n "vaccine_gene";\<newline>'',
          lit ''  rename -uid "A1";\<newline>'',
          lit ''createNode script -n "vaccine_gene1";\<newline>'',
          lit ''  rename -uid "B2";\<newline>'']
     = ([lit ''  rename -uid "A1";\<newline>'', lit ''  rename -uid "B2";\<newline>''], True)\<close>
  by (simp add: scan_eval)

section \<open>Properties of the depot path\<close>

lemma str_find_range: "str_find s sub = - 1 \<or> (0 \<le> str_find s sub \<and> str_find s sub \<le> int (length s))"
  by (induction s) (auto simp add: Let_def)

lemma str_find_none: "str_find s sub = - 1 \<longleftrightarrow> \<not> str_in sub s"
proof (induction s)
  case Nil
  show ?case by simp
next
  case (Cons c cs)
  from str_find_range [of cs sub] Cons show ?case
    by (auto simp add: Let_def)
qed

lemma str_find_first:
  "str_find s sub = int i \<Longrightarrow> prefix sub (drop i s) \<and> (\<forall>j<i. \<not> prefix sub (drop j s))"
proof (induction s arbitrary: i)
  case Nil
  then show ?case by (simp split: if_splits)
next
  case (Cons c cs)
  show ?case
  proof (cases "prefix sub (c # cs)")
    case True
    with Cons.prems show ?thesis by simp
  next
    case False
    with Cons.prems have nz: "str_find cs sub \<noteq> - 1" and i: "int i = str_find cs sub + 1"
      by (auto simp add: Let_def split: if_splits)
    from nz str_find_range [of cs sub] i have "0 < i" and "str_find cs sub = int (i - 1)"
      by auto
    then obtain i' where i': "i = Suc i'" "str_find cs sub = int i'"
      by (cases i) simp_all
    from Cons.IH [OF i'(2)] have "prefix sub (drop i' cs)" and "\<forall>j<i'. \<not> prefix sub (drop j cs)"
      by simp_all
    with False i'(1) show ?thesis
      by (auto simp add: less_Suc_eq_0_disj)
  qed
qed

lemma lower_drop:
  "\<forall>c \<in> set s. length (lower_cp ucd c) = 1 \<Longrightarrow> lower ucd (drop i s) = drop i (lower ucd s)"
proof (induction s arbitrary: i)
  case Nil
  show ?case by (simp add: lower_def)
next
  case (Cons c cs)
  then obtain d where d: "lower_cp ucd c = [d]"
    by (cases "lower_cp ucd c") auto
  show ?case
  proof (cases i)
    case 0
    then show ?thesis by simp
  next
    case (Suc i')
    with Cons d show ?thesis by (simp add: lower_def)
  qed
qed

text \<open>
  Without the marker in the lowered tail the path comes back as it was given.
\<close>

lemma local_to_perforce_path_absent:
  assumes "splitdrive p = (drive, tail)" and "\<not> str_in (lit ''potter'') (lower ucd tail)"
  shows "local_to_perforce_path splitdrive ucd p = p"
  using assms by (simp add: local_to_perforce_path_def str_find_none)

text \<open>
  When every code point of the tail lowers to one code point, an index into the
  lowered tail is an index into the tail: the depot path is then \<open>//\<close> and the tail
  from the first place where the marker stands, in any case of its letters, with
  every backslash turned into a slash.
\<close>

lemma local_to_perforce_path_aligned:
  assumes "splitdrive p = (drive, tail)"
    and "\<forall>c \<in> set tail. length (lower_cp ucd c) = 1"
    and "str_in (lit ''potter'') (lower ucd tail)"
  shows "\<exists>i. prefix (lit ''potter'') (lower ucd (drop i tail)) \<and>
             (\<forall>j<i. \<not> prefix (lit ''potter'') (lower ucd (drop j tail))) \<and>
             local_to_perforce_path splitdrive ucd p =
               lit ''//'' @ replace 0x5C 0x2F (drop i tail)"
proof -
  let ?k = "str_find (lower ucd tail) (lit ''potter'')"
  have "?k \<noteq> - 1"
    using assms(3) by (simp add: str_find_none)
  with str_find_range [of "lower ucd tail" "lit ''potter''"] have "0 \<le> ?k"
    by auto
  then obtain i where i: "?k = int i"
    by (metis nonneg_int_cases)
  from str_find_first [OF i]
  have "prefix (lit ''potter'') (lower ucd (drop i tail))"
    and "\<forall>j<i. \<not> prefix (lit ''potter'') (lower ucd (drop j tail))"
    using assms(2) by (simp_all add: lower_drop)
  moreover have "local_to_perforce_path splitdrive ucd p =
      lit ''//'' @ replace 0x5C 0x2F (drop i tail)"
    using assms(1) i by (simp add: local_to_perforce_path_def)
  ultimately show ?thesis by blast
qed

text \<open>
  C8, at an input where the code departs from it. U+0130 lowers to two code points,
  so behind it an index into the lowered tail points one place further in the tail
  itself: for the path \<^verbatim>\<open>D:\X\Potter\a.ma\<close> with U+0130 for \<^verbatim>\<open>X\<close>, whose tail
  holds the marker, the function returns \<^verbatim>\<open>//otter/a.ma\<close>, not \<open>//\<close> and the
  tail from the marker onward, \<^verbatim>\<open>//Potter/a.ma\<close>.
\<close>

theorem local_to_perforce_path_dotted_I:
  assumes "splitdrive (lit ''D:'' @ [0x5C, 0x130, 0x5C] @ lit ''Potter'' @ [0x5C] @ lit ''a.ma'')
             = (lit ''D:'', [0x5C, 0x130, 0x5C] @ lit ''Potter'' @ [0x5C] @ lit ''a.ma'')"
  shows "local_to_perforce_path splitdrive ucd
           (lit ''D:'' @ [0x5C, 0x130, 0x5C] @ lit ''Potter'' @ [0x5C] @ lit ''a.ma'')
         = lit ''//otter/a.ma''"
  using assms
  by (simp add: local_to_perforce_path_def lower_def lower_cp_def replace_def lit_def)

theorem local_to_perforce_path_dotted_I_witness:
  "local_to_perforce_path (\<lambda>p. (take 2 p, drop 2 p)) (\<lambda>c. [c])
           (lit ''D:'' @ [0x5C, 0x130, 0x5C] @ lit ''Potter'' @ [0x5C] @ lit ''a.ma'')
         = lit ''//otter/a.ma''"
proof -
  have "(\<lambda>p. (take 2 p, drop 2 p))
          (lit ''D:'' @ [0x5C, 0x130, 0x5C] @ lit ''Potter'' @ [0x5C] @ lit ''a.ma'')
        = (lit ''D:'', [0x5C, 0x130, 0x5C] @ lit ''Potter'' @ [0x5C] @ lit ''a.ma'')"
    by (simp add: lit_def)
  then show ?thesis
    by (rule local_to_perforce_path_dotted_I)
qed

section \<open>Nothing pasted\<close>

text \<open>With nothing pasted the loop is not entered: nothing is logged or called.\<close>

lemma clean_pasted_files_nothing_pasted:
  "clean_pasted_files splitdrive ucd worlds [] r =
     (None, r\<lparr>log_output := []\<rparr>,
      Some (lit ''No valid file paths provided.'', lit ''color: red;''))"
  by (simp add: clean_pasted_files_def strip_def)

section \<open>Properties of a failed submit\<close>

text \<open>A failed submit: the run after the handler, and what the revert raised.\<close>

lemma submit_change_failed:
  assumes "fetch_change_result w = Some (P4Exception e) \<or>
           fetch_change_result w = None \<and> submit_result w = Some (P4Exception e)"
  shows "submit_change w depot_path r =
    (revert_result w,
     r\<lparr>log_output := log_output r @
          [lit ''Error submitting file: '' @ depot_path @ lit '' '' @ e],
        p4_calls := p4_calls r @ [FetchChange] @
          (if fetch_change_result w = None
           then [Submit (lit ''Removed Vaccine virus from file'') [depot_path]] else []) @
          [Revert depot_path]\<rparr>)"
  using assms
  by (cases r) (auto simp add: submit_change_def submit_failed_def append_log_def p4_call_def Let_def)

lemma clean_lines_modified:
  assumes "read_result w = Inr lines" and "snd (scrub lines)" and "write_result w = None"
  shows "clean_lines w file_path depot_path r =
    submit_change w depot_path
      (r\<lparr>log_output := log_output r @ [lit ''Cleaned: '' @ file_path],
         written := written r @ [(file_path, fst (scrub lines))]\<rparr>)"
proof -
  obtain cleaned where "scrub lines = (cleaned, True)"
    using assms(2) by (cases "scrub lines") simp
  then show ?thesis
    using assms(1,3) by (cases r) (simp add: clean_lines_def append_log_def)
qed

lemma unset_readonly_done:
  assumes "stat_result w = Inr mode" and "bit mode 7 \<or> chmod_result w = None"
  shows "unset_readonly w file_path r =
    (None, r\<lparr>chmods := chmods r @ (if bit mode 7 then [] else [(file_path, S_IWRITE)])\<rparr>)"
  using assms by (cases r) (auto simp add: unset_readonly_def)

lemma clean_body_checked_out:
  assumes "connect_result w = Inr True" and "edit_result w = None"
    and "stat_result w = Inr mode" and "bit mode 7 \<or> chmod_result w = None"
  shows "clean_body splitdrive ucd w file_path r =
    clean_lines w file_path (local_to_perforce_path splitdrive ucd file_path)
      (r\<lparr>log_output := log_output r @
           [lit ''Checking out file: '' @ local_to_perforce_path splitdrive ucd file_path],
         p4_calls := p4_calls r @
           [Connect, Edit (local_to_perforce_path splitdrive ucd file_path)],
         chmods := chmods r @ (if bit mode 7 then [] else [(file_path, S_IWRITE)])\<rparr>)"
  using assms(1,2)
  by (cases r)
    (simp add: clean_body_def unset_readonly_done [OF assms(3,4)] append_log_def p4_call_def
      Let_def)

text \<open>
  \<^verbatim>\<open>clean_ma_file\<close> when the file was checked out, cleaned and written and the
  submit raised \<^verbatim>\<open>P4Exception\<close>: what the revert raises leaves the function, after
  the disconnect, unless it is a \<^verbatim>\<open>PermissionError\<close>.
\<close>

lemma clean_ma_file_submit_failed:
  assumes "connect_result w = Inr True" and "edit_result w = None"
    and "stat_result w = Inr mode" and "bit mode 7 \<or> chmod_result w = None"
    and "read_result w = Inr lines" and "snd (scrub lines)" and "write_result w = None"
    and "fetch_change_result w = Some (P4Exception e) \<or>
         fetch_change_result w = None \<and> submit_result w = Some (P4Exception e)"
    and "\<forall>m. revert_result w \<noteq> Some (PermissionError m)"
  shows "clean_ma_file splitdrive ucd w file_path r =
    (revert_result w,
     r\<lparr>log_output := log_output r @
          [lit ''Checking out file: '' @ local_to_perforce_path splitdrive ucd file_path,
           lit ''Cleaned: '' @ file_path,
           lit ''Error submitting file: '' @
             local_to_perforce_path splitdrive ucd file_path @ lit '' '' @ e],
        p4_calls := p4_calls r @
          [Connect, Edit (local_to_perforce_path splitdrive ucd file_path), FetchChange] @
          (if fetch_change_result w = None
           then [Submit (lit ''Removed Vaccine virus from file'')
                   [local_to_perforce_path splitdrive ucd file_path]]
           else []) @
          [Revert (local_to_perforce_path splitdrive ucd file_path), Disconnect],
        chmods := chmods r @ (if bit mode 7 then [] else [(file_path, S_IWRITE)]),
        written := written r @ [(file_path, fst (scrub lines))]\<rparr>)"
proof -
  show ?thesis
    using assms(9)
    by (cases r)
      (auto simp add: clean_ma_file_def clean_body_checked_out [OF assms(1-4)]
        clean_lines_modified [OF assms(5-7)] submit_change_failed [OF assms(8)] p4_call_def
        split: option.splits exn.splits)
qed

text \<open>
  When the file was checked out, cleaned and written back (\<open>modified\<close> is true) and
  the submit, or the fetch of its changelist, raises \<^verbatim>\<open>P4Exception\<close>, the error is
  logged and the revert of the file is called; when the revert returns,
  \<^verbatim>\<open>clean_ma_file\<close> returns without an exception and the loop over the files goes
  on with the next path.
\<close>

lemma clean_ma_file_submit_failure:
  assumes "path_exists (worlds i)" and "suffix (lit ''.ma'') (strip p)"
    and "connect_result (worlds i) = Inr True"
    and "edit_result (worlds i) = None"
    and "stat_result (worlds i) = Inr mode"
    and "bit mode 7 \<or> chmod_result (worlds i) = None"
    and "read_result (worlds i) = Inr lines"
    and "snd (scrub lines)"
    and "write_result (worlds i) = None"
    and "fetch_change_result (worlds i) = Some (P4Exception e) \<or>
         fetch_change_result (worlds i) = None \<and>
         submit_result (worlds i) = Some (P4Exception e)"
    and "revert_result (worlds i) = None"
  shows
    "\<exists>r'. clean_ma_file splitdrive ucd (worlds i) (strip p) r = (None, r') \<and>
       log_output r' = log_output r @
         [lit ''Checking out file: '' @ local_to_perforce_path splitdrive ucd (strip p),
          lit ''Cleaned: '' @ strip p,
          lit ''Error submitting file: '' @
            local_to_perforce_path splitdrive ucd (strip p) @ lit '' '' @ e] \<and>
       p4_calls r' = p4_calls r @
         [Connect, Edit (local_to_perforce_path splitdrive ucd (strip p)), FetchChange] @
         (if fetch_change_result (worlds i) = None
          then [Submit (lit ''Removed Vaccine virus from file'')
                  [local_to_perforce_path splitdrive ucd (strip p)]]
          else []) @
         [Revert (local_to_perforce_path splitdrive ucd (strip p)), Disconnect] \<and>
       written r' = written r @ [(strip p, fst (scrub lines))] \<and>
       clean_files splitdrive ucd worlds i (p # ps) (r, n) =
         clean_files splitdrive ucd worlds (Suc i) ps (r', n + 1)"
proof -
  have no_perm: "\<forall>m. revert_result (worlds i) \<noteq> Some (PermissionError m)"
    using assms(11) by simp
  note run = clean_ma_file_submit_failed [OF assms(3-10) no_perm, of splitdrive ucd "strip p" r]
  show ?thesis
    using assms(1,2,11) by (simp add: run Let_def)
qed


lemma clean_ma_file_submit_failure_example:
  \<open>fst (clean_ma_file (\<lambda>p. (take 2 p, drop 2 p)) (\<lambda>c. [c])
     \<lparr>path_exists = True, connect_result = Inr True, edit_result = None,
      stat_result = Inr 33060, chmod_result = None,
      read_result = Inr [lit ''createNode script -n "vaccine_gene";\<newline>'',
                         lit ''select -ne :time1;\<newline>''],
      write_result = None, fetch_change_result = None,
      submit_result = Some (P4Exception (lit ''Submit failed'')),
      revert_result = None\<rparr>
     (lit ''D:'' @ [0x5C] @ lit ''work'' @ [0x5C] @ lit ''Potter'' @ [0x5C] @ lit ''a.ma'')
     \<lparr>log_output = [], printed = [], p4_calls = [], chmods = [], written = []\<rparr>) = None \<and>
   p4_calls (snd (clean_ma_file (\<lambda>p. (take 2 p, drop 2 p)) (\<lambda>c. [c])
     \<lparr>path_exists = True, connect_result = Inr True, edit_result = None,
      stat_result = Inr 33060, chmod_result = None,
      read_result = Inr [lit ''createNode script -n "vaccine_gene";\<newline>'',
                         lit ''select -ne :time1;\<newline>''],
      write_result = None, fetch_change_result = None,
      submit_result = Some (P4Exception (lit ''Submit failed'')),
      revert_result = None\<rparr>
     (lit ''D:'' @ [0x5C] @ lit ''work'' @ [0x5C] @ lit ''Potter'' @ [0x5C] @ lit ''a.ma'')
     \<lparr>log_output = [], printed = [], p4_calls = [], chmods = [], written = []\<rparr>))
     = [Connect, Edit (lit ''//Potter/a.ma''), FetchChange,
        Submit (lit ''Removed Vaccine virus from file'') [lit ''//Potter/a.ma''],
        Revert (lit ''//Potter/a.ma''), Disconnect] \<and>
   log_output (snd (clean_ma_file (\<lambda>p. (take 2 p, drop 2 p)) (\<lambda>c. [c])
     \<lparr>path_exists = True, connect_result = Inr True, edit_result = None,
      stat_result = Inr 33060, chmod_result = None,
      read_result = Inr [lit ''createNode script -n "vaccine_gene";\<newline>'',
                         lit ''select -ne :time1;\<newline>''],
      write_result = None, fetch_change_result = None,
      submit_result = Some (P4Exception (lit ''Submit failed'')),
      revert_result = None\<rparr>
     (lit ''D:'' @ [0x5C] @ lit ''work'' @ [0x5C] @ lit ''Potter'' @ [0x5C] @ lit ''a.ma'')
     \<lparr>log_output = [], printed = [], p4_calls = [], chmods = [], written = []\<rparr>))
     = [lit ''Checking out file: //Potter/a.ma'',
        lit ''Cleaned: D:'' @ [0x5C] @ lit ''work'' @ [0x5C] @ lit ''Potter'' @ [0x5C] @
          lit ''a.ma'',
        lit ''Error submitting file: //Potter/a.ma Submit failed'']\<close>
proof -
  let ?sd = "\<lambda>p :: str. (take 2 p, drop 2 p)"
  let ?ucd = "\<lambda>c :: nat. [c]"
  let ?w = \<open>\<lparr>path_exists = True, connect_result = Inr True, edit_result = None,
      stat_result = Inr 33060, chmod_result = None,
      read_result = Inr [lit ''createNode script -n "vaccine_gene";\<newline>'',
                         lit ''select -ne :time1;\<newline>''],
      write_result = None, fetch_change_result = None,
      submit_result = Some (P4Exception (lit ''Submit failed'')),
      revert_result = None\<rparr>\<close>
  let ?p = "lit ''D:'' @ [0x5C] @ lit ''work'' @ [0x5C] @ lit ''Potter'' @ [0x5C] @ lit ''a.ma''"
  let ?r = "\<lparr>log_output = [], printed = [], p4_calls = [], chmods = [], written = []\<rparr>"
  let ?lines = \<open>[lit ''createNode script -n "vaccine_gene";\<newline>'',
                 lit ''select -ne :time1;\<newline>'']\<close>
  have strip: "strip ?p = ?p"
    by (simp add: strip_def isspace_def lit_def)
  have depot: "local_to_perforce_path ?sd ?ucd ?p = lit ''//Potter/a.ma''"
    by (simp add: local_to_perforce_path_def lower_def lower_cp_def replace_def lit_def)
  have h1: "path_exists ?w" by simp
  have h2: "suffix (lit ''.ma'') (strip ?p)"
    unfolding strip by (simp add: suffix_to_prefix lit_def)
  have h3: "connect_result ?w = Inr True" by simp
  have h4: "edit_result ?w = None" by simp
  have h5: "stat_result ?w = Inr 33060" by simp
  have h6: "bit (33060 :: nat) 7 \<or> chmod_result ?w = None" by simp
  have h7: "read_result ?w = Inr ?lines" by simp
  have h8: "snd (scrub ?lines)" by (simp add: scan_eval)
  have h9: "write_result ?w = None" by simp
  have h10: "fetch_change_result ?w = Some (P4Exception (lit ''Submit failed'')) \<or>
      fetch_change_result ?w = None \<and>
      submit_result ?w = Some (P4Exception (lit ''Submit failed''))" by simp
  have h11: "revert_result ?w = None" by simp
  from clean_ma_file_submit_failure
         [where worlds = "\<lambda>i. ?w" and i = 0 and p = ?p and splitdrive = ?sd and ucd = ?ucd
            and r = ?r and ps = "[]" and n = 0,
          OF h1 h2 h3 h4 h5 h6 h7 h8 h9 h10 h11]
  obtain r' where "clean_ma_file ?sd ?ucd ?w (strip ?p) ?r = (None, r')"
    and "log_output r' = log_output ?r @
         [lit ''Checking out file: '' @ local_to_perforce_path ?sd ?ucd (strip ?p),
          lit ''Cleaned: '' @ strip ?p,
          lit ''Error submitting file: '' @
            local_to_perforce_path ?sd ?ucd (strip ?p) @ lit '' '' @ lit ''Submit failed'']"
    and "p4_calls r' = p4_calls ?r @
         [Connect, Edit (local_to_perforce_path ?sd ?ucd (strip ?p)), FetchChange] @
         (if fetch_change_result ?w = None
          then [Submit (lit ''Removed Vaccine virus from file'')
                  [local_to_perforce_path ?sd ?ucd (strip ?p)]]
          else []) @
         [Revert (local_to_perforce_path ?sd ?ucd (strip ?p)), Disconnect]"
    by auto
  then show ?thesis
    unfolding strip depot by (simp add: lit_def)
qed

text \<open>
  The revert in the handler is the one Perforce command of \<^verbatim>\<open>clean_ma_file\<close> run
  outside an \<^verbatim>\<open>except P4Exception\<close>: whatever it raises leaves the function, after
  the disconnect, and with it the loop over the files.
\<close>

lemma clean_files_revert_raises:
  assumes "path_exists (worlds i)" and "suffix (lit ''.ma'') (strip p)"
    and "connect_result (worlds i) = Inr True"
    and "edit_result (worlds i) = None"
    and "stat_result (worlds i) = Inr mode"
    and "bit mode 7 \<or> chmod_result (worlds i) = None"
    and "read_result (worlds i) = Inr lines"
    and "snd (scrub lines)"
    and "write_result (worlds i) = None"
    and "fetch_change_result (worlds i) = Some (P4Exception e) \<or>
         fetch_change_result (worlds i) = None \<and>
         submit_result (worlds i) = Some (P4Exception e)"
    and "revert_result (worlds i) = Some (P4Exception e')"
  shows "fst (clean_files splitdrive ucd worlds i (p # ps) (r, n)) = Some (P4Exception e')"
proof -
  have no_perm: "\<forall>m. revert_result (worlds i) \<noteq> Some (PermissionError m)"
    using assms(11) by simp
  note run = clean_ma_file_submit_failed [OF assms(3-10) no_perm, of splitdrive ucd "strip p" r]
  show ?thesis
    using assms(1,2,11) by (simp add: run Let_def)
qed

text \<open>
  C9, at an input where the code departs from it: the submit raises and the revert in
  its handler raises too, as when the server is lost after the checkout. The error of
  the submit is logged and the revert is called, but the \<^verbatim>\<open>P4Exception\<close> of the
  revert leaves \<^verbatim>\<open>clean_ma_file\<close> and the loop over the files: the failure is not
  confined to the first file, and the second path is never looked at.
\<close>

theorem clean_ma_file_revert_raises:
  \<open>clean_files (\<lambda>p. (take 2 p, drop 2 p)) (\<lambda>c. [c])
     (\<lambda>i. \<lparr>path_exists = True, connect_result = Inr True, edit_result = None,
            stat_result = Inr 33206, chmod_result = None,
            read_result = Inr [lit ''createNode script -n "vaccine_gene";\<newline>'',
                               lit ''select -ne :time1;\<newline>''],
            write_result = None, fetch_change_result = None,
            submit_result = Some (P4Exception (lit ''Submit failed'')),
            revert_result = Some (P4Exception (lit ''Connect to server failed''))\<rparr>)
     0
     [lit ''D:'' @ [0x5C] @ lit ''Potter'' @ [0x5C] @ lit ''a.ma'',
      lit ''D:'' @ [0x5C] @ lit ''Potter'' @ [0x5C] @ lit ''b.ma'']
     (\<lparr>log_output = [], printed = [], p4_calls = [], chmods = [], written = []\<rparr>, 0)
   = (Some (P4Exception (lit ''Connect to server failed'')),
      \<lparr>log_output =
         [lit ''Checking out file: //Potter/a.ma'',
          lit ''Cleaned: D:'' @ [0x5C] @ lit ''Potter'' @ [0x5C] @ lit ''a.ma'',
          lit ''Error submitting file: //Potter/a.ma Submit failed''],
       printed = [],
       p4_calls =
         [Connect, Edit (lit ''//Potter/a.ma''), FetchChange,
          Submit (lit ''Removed Vaccine virus from file'') [lit ''//Potter/a.ma''],
          Revert (lit ''//Potter/a.ma''), Disconnect],
       chmods = [],
       written =
         [(lit ''D:'' @ [0x5C] @ lit ''Potter'' @ [0x5C] @ lit ''a.ma'',
           [lit ''select -ne :time1;\<newline>''])]\<rparr>,
      0)\<close>
  by (simp add: clean_ma_file_def clean_body_def clean_lines_def submit_change_def
      submit_failed_def unset_readonly_def append_log_def p4_call_def Let_def
      local_to_perforce_path_def lower_def lower_cp_def replace_def suffix_to_prefix scan_eval)

end
